theory Spec2Isabelle
  imports Complex_Main "HOL-Library.AList"
begin

section \<open>Zone graph\<close>

text \<open>
  The module-level tables of \<^verbatim>\<open>Summary.py\<close>. \<^verbatim>\<open>NEIGHBORS\<close> is a dict literal with
  pairwise different keys; it is kept as an association list in the order of the literal
  and read with \<open>map_of\<close>. \<^verbatim>\<open>ALL_ZONES\<close> is the row-major flattening of \<^verbatim>\<open>ZONES_ORDER\<close>.
\<close>

definition NEIGHBORS :: "(string \<times> string list) list" where
  "NEIGHBORS =
    [(''Q1'', [''Q2'', ''Q4'', ''T1'', ''L1'']), (''Q2'', [''Q1'', ''Q3'', ''Q5'', ''T2'']),
     (''Q3'', [''Q2'', ''Q6'', ''T3'', ''R1'']),
     (''Q4'', [''Q1'', ''Q5'', ''Q7'', ''L2'']), (''Q5'', [''Q2'', ''Q4'', ''Q6'', ''Q8'']),
     (''Q6'', [''Q3'', ''Q5'', ''Q9'', ''R2'']),
     (''Q7'', [''Q4'', ''Q8'', ''L3'', ''B1'']), (''Q8'', [''Q5'', ''Q7'', ''Q9'', ''B2'']),
     (''Q9'', [''Q6'', ''Q8'', ''R3'', ''B3'']),
     (''T1'', [''Q1'', ''Q2'', ''T2'']), (''T2'', [''Q2'', ''T1'', ''T3'']),
     (''T3'', [''Q2'', ''Q3'', ''T2'']),
     (''L1'', [''Q1'', ''L2'']), (''L2'', [''Q4'', ''L1'', ''L3'']), (''L3'', [''Q7'', ''L2'']),
     (''R1'', [''Q3'', ''R2'']), (''R2'', [''Q6'', ''R1'', ''R3'']), (''R3'', [''Q9'', ''R2'']),
     (''B1'', [''Q7'', ''B2'']), (''B2'', [''Q8'', ''B1'', ''B3'']), (''B3'', [''Q9'', ''B2''])]"

definition ZONES_ORDER :: "string list list" where
  "ZONES_ORDER =
    [[''TL'', ''T1'', ''T2'', ''T3'', ''TR''],
     [''L1'', ''Q1'', ''Q2'', ''Q3'', ''R1''],
     [''L2'', ''Q4'', ''Q5'', ''Q6'', ''R2''],
     [''L3'', ''Q7'', ''Q8'', ''Q9'', ''R3''],
     [''BL'', ''B1'', ''B2'', ''B3'', ''BR'']]"

definition ALL_ZONES :: "string list" where
  "ALL_ZONES = concat ZONES_ORDER"

section \<open>Data structures\<close>

text \<open>
  The frozen dataclass \<^verbatim>\<open>PitchEntry\<close>. Its field \<^verbatim>\<open>target\<close> is named \<open>entry_target\<close>
  here, since the tracker has a field of the same name. Python integers are unbounded.
\<close>

record PitchEntry =
  pitch_num :: int
  entry_target :: string
  actual :: string
  accuracy :: int

text \<open>The dataclass \<^verbatim>\<open>PitchTracker\<close>: \<^verbatim>\<open>target: Optional[str]\<close>, counter and log.\<close>

record PitchTracker =
  target :: "string option"
  pitch_counter :: int
  pitch_log :: "PitchEntry list"

text \<open>The state built by \<^verbatim>\<open>PitchTracker()\<close> from the field defaults.\<close>

definition PitchTracker_init :: PitchTracker where
  "PitchTracker_init = \<lparr>target = None, pitch_counter = 0, pitch_log = []\<rparr>"

text \<open>
  Both failures that the module raises itself are \<^verbatim>\<open>ValueError\<close>s that differ in their
  message. The two error kinds of the specification are the two messages. \<^verbatim>\<open>KeyError\<close> is
  what a dict subscript raises on a missing key.
\<close>

datatype error = ValueError string | KeyError string

definition InvalidZone :: "string \<Rightarrow> error" where
  "InvalidZone zone = ValueError (''Invalid zone: '' @ zone)"

definition NoTargetSet :: error where
  "NoTargetSet = ValueError ''Please set a target first.''"

section \<open>Helpers\<close>

text \<open>\<^verbatim>\<open>actual in NEIGHBORS.get(target, [])\<close>\<close>

definition is_neighbor :: "string \<Rightarrow> string \<Rightarrow> bool" where
  "is_neighbor t a =
     (a \<in> set (case map_of NEIGHBORS t of None \<Rightarrow> [] | Some l \<Rightarrow> l))"

text \<open>The adjacency map as a list of pairs \<open>(target, actual)\<close>, in the order of the table.\<close>

definition neighbor_pairs :: "(string \<times> string) list" where
  "neighbor_pairs = concat (map (\<lambda>(k, l). map (Pair k) l) NEIGHBORS)"

text \<open>\<^verbatim>\<open>_validate_zone\<close>: raises when the zone is not in \<^verbatim>\<open>ALL_ZONES\<close>, else returns None.\<close>

definition validate_zone :: "string \<Rightarrow> error + unit" where
  "validate_zone zone =
     (if zone \<notin> set ALL_ZONES then Inl (InvalidZone zone) else Inr ())"

text \<open>
  Python's truth value of an \<^verbatim>\<open>Optional[str]\<close>: \<^verbatim>\<open>None\<close> and the empty string are
  falsy, every other string is truthy. \<^verbatim>\<open>not self.target\<close> is \<open>\<not> truthy (target self)\<close>.
\<close>

fun truthy :: "string option \<Rightarrow> bool" where
  "truthy None = False"
| "truthy (Some s) = (s \<noteq> [])"

section \<open>Core actions\<close>

text \<open>
  Each method takes the tracker and returns the outcome of the call (the raised error or
  the returned value) together with the tracker as the call leaves it. An exception leaves
  the object as it is at the \<^verbatim>\<open>raise\<close>.
\<close>

definition set_target :: "PitchTracker \<Rightarrow> string \<Rightarrow> (error + unit) \<times> PitchTracker" where
  "set_target self zone =
     (case validate_zone zone of
        Inl e \<Rightarrow> (Inl e, self)
      | Inr _ \<Rightarrow> (Inr (), self\<lparr>target := Some zone\<rparr>))"

definition log_pitch :: "PitchTracker \<Rightarrow> string \<Rightarrow> (error + PitchEntry) \<times> PitchTracker" where
  "log_pitch self a =
     (case validate_zone a of
        Inl e \<Rightarrow> (Inl e, self)
      | Inr _ \<Rightarrow>
          if \<not> truthy (target self) then (Inl NoTargetSet, self)
          else
            let self1 = self\<lparr>pitch_counter :=
                          (if pitch_counter self < 1 then 1 else pitch_counter self + 1)\<rparr>;
                t = the (target self1);
                acc = (if t = a then 10 else if is_neighbor t a then 5 else 0);
                entry = \<lparr>pitch_num = pitch_counter self1, entry_target = t,
                         actual = a, accuracy = acc\<rparr>;
                self2 = self1\<lparr>pitch_log := pitch_log self1 @ [entry]\<rparr>;
                self3 = self2\<lparr>target := None\<rparr>
            in (Inr entry, self3))"

definition clear_pitch_log :: "PitchTracker \<Rightarrow> (error + unit) \<times> PitchTracker" where
  "clear_pitch_log self =
     (Inr (), self\<lparr>pitch_log := [], pitch_counter := 0, target := None\<rparr>)"

text \<open>
  A session is a sequence of calls; a call that raises leaves the caller with the tracker
  as the exception left it, and the next call goes on from there.
\<close>

datatype op = SetTarget string | LogPitch string | ClearPitchLog

fun apply_op :: "PitchTracker \<Rightarrow> op \<Rightarrow> PitchTracker" where
  "apply_op self (SetTarget z) = snd (set_target self z)"
| "apply_op self (LogPitch a) = snd (log_pitch self a)"
| "apply_op self ClearPitchLog = snd (clear_pitch_log self)"

definition run :: "op list \<Rightarrow> PitchTracker" where
  "run ops = foldl apply_op PitchTracker_init ops"

section \<open>Python floats and string formatting\<close>

text \<open>
  A finite Python float is an IEEE 754 binary64 number; it is modelled by its exact value,
  a rational. Every float operation of the module is the exact operation followed by
  rounding to the nearest binary64 number, ties to the even significand (\<open>fl\<close>). Only the
  normal range is modelled (53-bit significand, unbounded exponent): the module's floats
  are zero or lie between \<open>1 / total\<close> and 100, far from overflow and from the subnormal
  range for any list length a machine can hold.
\<close>

type_synonym pyfloat = rat

text \<open>Rounding to the nearest integer, ties to the even one.\<close>

definition round_half_even :: "rat \<Rightarrow> int" where
  "round_half_even q =
     (let f = \<lfloor>q\<rfloor>; r = q - of_int f
      in if r < 1 / 2 then f
         else if 1 / 2 < r then f + 1
         else if even f then f else f + 1)"

definition pow2 :: "int \<Rightarrow> rat" where
  "pow2 e = (if 0 \<le> e then 2 ^ nat e else 1 / 2 ^ nat (- e))"

text \<open>
  The binary exponent of a non-zero rational: the \<open>e\<close> with \<open>2^e \<le> \<bar>q\<bar> < 2^(e+1)\<close>. The
  difference of the bit lengths of numerator and denominator is \<open>e\<close> or \<open>e + 1\<close>;
  \<open>bitlen n\<close> is the number of binary digits of a positive \<open>n\<close>.
\<close>

function bitlen :: "int \<Rightarrow> int" where
  "bitlen n = (if n \<le> 0 then 0 else 1 + bitlen (n div 2))"
  by pat_completeness auto
termination
  by (relation "measure nat") auto

declare bitlen.simps [simp del]

definition binexp :: "rat \<Rightarrow> int" where
  "binexp q =
     (let (n, d) = quotient_of \<bar>q\<bar>;
          g = bitlen n - bitlen d
      in if pow2 g \<le> \<bar>q\<bar> then g else g - 1)"

text \<open>Rounding to binary64: a multiple of \<open>2^(e - 52)\<close> nearest to \<open>q\<close>.\<close>

definition fl :: "rat \<Rightarrow> pyfloat" where
  "fl q = (if q = 0 then 0
           else let u = pow2 (binexp q - 52) in of_int (round_half_even (q / u)) * u)"

text \<open>
  \<^verbatim>\<open>a / b\<close> on two ints (correctly rounded true division; the module divides only under
  the guard \<^verbatim>\<open>if total\<close>) and \<^verbatim>\<open>x * y\<close> on two floats.
\<close>

definition py_truediv :: "int \<Rightarrow> int \<Rightarrow> pyfloat" where
  "py_truediv a b = fl (of_int a / of_int b)"

definition py_mul :: "pyfloat \<Rightarrow> pyfloat \<Rightarrow> pyfloat" where
  "py_mul x y = fl (x * y)"

text \<open>
  \<^verbatim>\<open>round(x, 1)\<close>: the float's exact value is rounded to one decimal, ties to even, and the
  decimal is read back as the nearest float.
\<close>

definition py_round1 :: "pyfloat \<Rightarrow> pyfloat" where
  "py_round1 x = fl (of_int (round_half_even (x * 10)) / 10)"

text \<open>\<^verbatim>\<open>str(i)\<close> of an int, as interpolated by an f-string.\<close>

definition digit_char :: "int \<Rightarrow> char" where
  "digit_char d = ''0123456789'' ! nat d"

function str_digits :: "int \<Rightarrow> string" where
  "str_digits n =
     (if n < 10 then [digit_char n] else str_digits (n div 10) @ [digit_char (n mod 10)])"
  by pat_completeness auto
termination
  by (relation "measure nat") auto

declare str_digits.simps [simp del]

definition str_int :: "int \<Rightarrow> string" where
  "str_int i = (if i < 0 then CHR ''-'' # str_digits (- i) else str_digits i)"

text \<open>
  The format \<^verbatim>\<open>{x:.1f}\<close>: the exact value of the float rounded to one decimal, ties to
  even, printed with one digit after the point.
\<close>

definition format_1f :: "pyfloat \<Rightarrow> string" where
  "format_1f x =
     (let k = round_half_even (\<bar>x\<bar> * 10)
      in (if x < 0 then ''-'' else []) @ str_int (k div 10) @ ''.'' @ str_int (k mod 10))"

section \<open>Summary\<close>

text \<open>
  The dict that \<^verbatim>\<open>generate_summary\<close> returns, one record for each nested dict. The key
  \<^verbatim>\<open>log\<close> is the field \<open>log_rows\<close>; its rows carry the four fields of an entry.
  \<^verbatim>\<open>counts_by_zone\<close> is a dict with the zones as keys in the order of \<^verbatim>\<open>ALL_ZONES\<close>.
\<close>

record summary_totals =
  total_pitches :: int
  accurate_10 :: int
  close_5 :: int
  miss_0 :: int
  accuracy_pct :: pyfloat

record donut_slice =
  label :: string
  count :: int

record heatmap_data =
  zones_order :: "string list list"
  labels_grid :: "string list list"
  counts_grid :: "int list list"
  counts_by_zone :: "(string \<times> int) list"

record snapshot =
  summary :: summary_totals
  donut :: "donut_slice list"
  heatmap :: heatmap_data
  log_rows :: "PitchEntry list"

text \<open>
  The body of the counting loop:
  \<^verbatim>\<open>if p.actual in counts: counts[p.actual] += 1\<close>.
\<close>

definition count_actual :: "(string \<times> int) list \<Rightarrow> PitchEntry \<Rightarrow> (string \<times> int) list" where
  "count_actual counts p =
     (case map_of counts (actual p) of
        None \<Rightarrow> counts
      | Some c \<Rightarrow> AList.update (actual p) (c + 1) counts)"

text \<open>The subscript \<^verbatim>\<open>counts[z]\<close>, which raises \<^verbatim>\<open>KeyError\<close> on a missing key.\<close>

definition getitem :: "(string \<times> int) list \<Rightarrow> string \<Rightarrow> error + int" where
  "getitem counts z = (case map_of counts z of None \<Rightarrow> Inl (KeyError z) | Some v \<Rightarrow> Inr v)"

text \<open>
  A list comprehension whose elements may raise: the elements are computed from left to
  right and the first error ends the comprehension.
\<close>

fun collect :: "(error + 'a) list \<Rightarrow> error + 'a list" where
  "collect [] = Inr []"
| "collect (x # xs) =
     (case x of
        Inl e \<Rightarrow> Inl e
      | Inr v \<Rightarrow> (case collect xs of Inl e \<Rightarrow> Inl e | Inr vs \<Rightarrow> Inr (v # vs)))"

text \<open>The local function \<^verbatim>\<open>fmt\<close>, with the \<^verbatim>\<open>total\<close> it closes over as the parameter \<open>tot\<close>.\<close>

definition fmt :: "int \<Rightarrow> string \<Rightarrow> int \<Rightarrow> string" where
  "fmt tot z v =
     (if tot \<noteq> 0
      then z @ '' ('' @ str_int v @ '', '' @ format_1f (py_mul (py_truediv v tot) 100) @ ''%)''
      else z @ '' (0,0%)'')"

definition generate_summary :: "PitchTracker \<Rightarrow> (error + snapshot) \<times> PitchTracker" where
  "generate_summary self =
     (let tot = int (length (pitch_log self));
          accurate = sum_list [1. p \<leftarrow> pitch_log self, accuracy p = 10];
          close = sum_list [1. p \<leftarrow> pitch_log self, accuracy p = 5];
          miss = tot - accurate - close;
          pct = (if tot \<noteq> 0 then py_mul (py_truediv (accurate + close) tot) 100 else 0);
          counts = foldl count_actual [(z, 0). z \<leftarrow> ALL_ZONES] (pitch_log self)
      in case collect [collect [map_sum id (fmt tot z) (getitem counts z). z \<leftarrow> row].
                         row \<leftarrow> ZONES_ORDER] of
           Inl e \<Rightarrow> (Inl e, self)
         | Inr heatmap_labels \<Rightarrow>
             (case collect [collect [getitem counts z. z \<leftarrow> row]. row \<leftarrow> ZONES_ORDER] of
                Inl e \<Rightarrow> (Inl e, self)
              | Inr heatmap_counts \<Rightarrow>
                  (Inr \<lparr>summary = \<lparr>total_pitches = tot, accurate_10 = accurate,
                                    close_5 = close, miss_0 = miss,
                                    accuracy_pct = py_round1 pct\<rparr>,
                        donut = [\<lparr>label = ''Miss'', count = miss\<rparr>,
                                 \<lparr>label = ''Close'', count = close\<rparr>,
                                 \<lparr>label = ''Accurate'', count = accurate\<rparr>],
                        heatmap = \<lparr>zones_order = ZONES_ORDER,
                                    labels_grid = heatmap_labels,
                                    counts_grid = heatmap_counts,
                                    counts_by_zone = counts\<rparr>,
                        log_rows = [\<lparr>pitch_num = pitch_num p, entry_target = entry_target p,
                                      actual = actual p, accuracy = accuracy p\<rparr>.
                                    p \<leftarrow> pitch_log self]\<rparr>,
                   self)))"

text \<open>Calling \<^verbatim>\<open>generate_summary\<close> \<open>n\<close> times in a row, collecting what each call returns.\<close>

fun summaries :: "nat \<Rightarrow> PitchTracker \<Rightarrow> (error + snapshot) list \<times> PitchTracker" where
  "summaries 0 self = ([], self)"
| "summaries (Suc n) self =
     (let (r, self1) = generate_summary self;
          (rs, self2) = summaries n self1
      in (r # rs, self2))"

section \<open>Heat color helper\<close>

definition get_heat_color :: "int \<Rightarrow> string" where
  "get_heat_color v =
     (if v = 0 then ''#ffffff''
      else if v < 3 then ''#a3d5ff''
      else if v < 6 then ''#3399ff''
      else ''#004c99'')"

section \<open>The percentage in exact arithmetic\<close>

text \<open>
  The specification describes \<^verbatim>\<open>accuracy_pct\<close> as \<open>(accurate + close) / total * 100\<close> rounded to
  one decimal place, and 0.0 for an empty log. \<open>claimed_accuracy_pct\<close> follows these words:
  the quotient is the exact rational, \<open>rnd\<close> is the rule that rounds ten times the
  percentage to an integer, and the result is the float that a decimal with one digit
  after the point denotes. The three usual rules differ only on ties.
\<close>

definition round_half_up :: "rat \<Rightarrow> int" where
  "round_half_up q = \<lfloor>q + 1 / 2\<rfloor>"

definition round_half_down :: "rat \<Rightarrow> int" where
  "round_half_down q = \<lceil>q - 1 / 2\<rceil>"

definition claimed_accuracy_pct :: "(rat \<Rightarrow> int) \<Rightarrow> PitchTracker \<Rightarrow> pyfloat" where
  "claimed_accuracy_pct rnd self =
     (let tot = int (length (pitch_log self));
          accurate = int (length [p \<leftarrow> pitch_log self. accuracy p = 10]);
          close = int (length [p \<leftarrow> pitch_log self. accuracy p = 5])
      in if 0 < tot then fl (of_int (rnd (of_int (accurate + close) / of_int tot * 100 * 10)) / 10)
         else 0)"

text \<open>
  Two sessions: 80 pitches of which the first 23 hit the target \<open>Q1\<close> and the other 57 land
  in \<open>Q9\<close>, which is neither \<open>Q1\<close> nor a neighbor of it; and 16 pitches of which the first
  3 hit the target.
\<close>

definition pitches_23_of_80 :: PitchTracker where
  "pitches_23_of_80 =
     run (concat (replicate 23 [SetTarget ''Q1'', LogPitch ''Q1'']) @
          concat (replicate 57 [SetTarget ''Q1'', LogPitch ''Q9'']))"

definition pitches_3_of_16 :: PitchTracker where
  "pitches_3_of_16 =
     run (concat (replicate 3 [SetTarget ''Q1'', LogPitch ''Q1'']) @
          concat (replicate 13 [SetTarget ''Q1'', LogPitch ''Q9'']))"

text \<open>A session of three pitches: two land in \<open>Q1\<close> and one in \<open>Q2\<close>.\<close>

definition two_Q1_one_Q2 :: PitchTracker where
  "two_Q1_one_Q2 =
     run [SetTarget ''Q1'', LogPitch ''Q1'', SetTarget ''Q5'', LogPitch ''Q1'',
          SetTarget ''Q2'', LogPitch ''Q2'']"

section \<open>Counter invariant\<close>

text \<open>
  The counter is the length of the log, and the entries are numbered 1, 2, ... in log
  order.
\<close>

definition counter_ok :: "PitchTracker \<Rightarrow> bool" where
  "counter_ok self \<longleftrightarrow>
     pitch_counter self = int (length (pitch_log self)) \<and>
     map pitch_num (pitch_log self) = [1..int (length (pitch_log self))]"

section \<open>Facts about the tables\<close>

lemma distinct_NEIGHBORS_keys: "distinct (map fst NEIGHBORS)"
  by (simp add: NEIGHBORS_def)

lemma ALL_ZONES_eq:
  "ALL_ZONES = [''TL'', ''T1'', ''T2'', ''T3'', ''TR'', ''L1'', ''Q1'', ''Q2'', ''Q3'', ''R1'',
     ''L2'', ''Q4'', ''Q5'', ''Q6'', ''R2'', ''L3'', ''Q7'', ''Q8'', ''Q9'', ''R3'',
     ''BL'', ''B1'', ''B2'', ''B3'', ''BR'']"
  by (simp add: ALL_ZONES_def ZONES_ORDER_def)

lemma ALL_ZONES_25: "length ALL_ZONES = 25 \<and> distinct ALL_ZONES"
  by (simp add: ALL_ZONES_eq)

lemma ALL_ZONES_nonempty: "z \<in> set ALL_ZONES \<Longrightarrow> z \<noteq> []"
  by (auto simp add: ALL_ZONES_eq)

lemma InvalidZone_neq_NoTargetSet: "InvalidZone z \<noteq> NoTargetSet"
  by (simp add: InvalidZone_def NoTargetSet_def)

lemma InvalidZone_inject: "InvalidZone z = InvalidZone z' \<longleftrightarrow> z = z'"
  by (simp add: InvalidZone_def)


text \<open>
  C8: \<open>is_neighbor z1 z2\<close> is a function of its two arguments, true exactly when \<open>z2\<close> is
  listed in the entry of \<open>z1\<close> in the adjacency map; the four corner zones have no entry,
  so \<open>is_neighbor c z\<close> is false for every corner \<open>c\<close> and every \<open>z\<close>.
\<close>

theorem is_neighbor_listed:
  "(is_neighbor z1 z2 \<longleftrightarrow> (\<exists>l. (z1, l) \<in> set NEIGHBORS \<and> z2 \<in> set l)) \<and>
   (\<forall>c \<in> {''TL'', ''TR'', ''BL'', ''BR''}. c \<notin> fst ` set NEIGHBORS \<and> (\<forall>z. \<not> is_neighbor c z))"
proof (intro conjI)
  show "is_neighbor z1 z2 \<longleftrightarrow> (\<exists>l. (z1, l) \<in> set NEIGHBORS \<and> z2 \<in> set l)"
    using distinct_NEIGHBORS_keys
    by (auto simp add: is_neighbor_def split: option.splits)
  have absent: "\<forall>c \<in> {''TL'', ''TR'', ''BL'', ''BR''}. c \<notin> fst ` set NEIGHBORS"
    by (simp add: NEIGHBORS_def)
  have "\<And>c z. c \<notin> fst ` set NEIGHBORS \<Longrightarrow> \<not> is_neighbor c z"
    by (simp add: is_neighbor_def map_of_eq_None_iff [THEN iffD2])
  with absent show "\<forall>c \<in> {''TL'', ''TR'', ''BL'', ''BR''}. c \<notin> fst ` set NEIGHBORS \<and> (\<forall>z. \<not> is_neighbor c z)"
    by blast
qed

theorem is_neighbor_listed_witness:
  "is_neighbor ''Q1'' ''T1'' \<and> \<not> is_neighbor ''Q1'' ''Q9'' \<and> \<not> is_neighbor ''TL'' ''T1''"
proof -
  have a: "(''Q1'', [''Q2'', ''Q4'', ''T1'', ''L1'']) \<in> set NEIGHBORS"
    by (simp add: NEIGHBORS_def)
  have b: "\<not> (\<exists>l. (''Q1'', l) \<in> set NEIGHBORS \<and> ''Q9'' \<in> set l)"
    by (simp add: NEIGHBORS_def)
  from a have "\<exists>l. (''Q1'', l) \<in> set NEIGHBORS \<and> ''T1'' \<in> set l" by force
  with b show ?thesis
    using is_neighbor_listed [of "''Q1''" "''T1''"] is_neighbor_listed [of "''Q1''" "''Q9''"]
    by simp
qed


lemma is_neighbor_pairs: "is_neighbor z1 z2 \<longleftrightarrow> (z1, z2) \<in> set neighbor_pairs"
proof -
  have "is_neighbor z1 z2 \<longleftrightarrow> (\<exists>l. (z1, l) \<in> set NEIGHBORS \<and> z2 \<in> set l)"
    using distinct_NEIGHBORS_keys
    by (auto simp add: is_neighbor_def split: option.splits)
  then show ?thesis by (auto simp add: neighbor_pairs_def)
qed

lemma one_way_pairs:
  "filter (\<lambda>(a, b). (b, a) \<notin> set neighbor_pairs) neighbor_pairs
     = [(''T1'', ''Q2''), (''T3'', ''Q2'')]"
  by code_simp

lemma asymmetric_pairs:
  "is_neighbor z1 z2 \<and> \<not> is_neighbor z2 z1 \<longleftrightarrow> (z1 = ''T1'' \<or> z1 = ''T3'') \<and> z2 = ''Q2''"
proof -
  have "is_neighbor z1 z2 \<and> \<not> is_neighbor z2 z1 \<longleftrightarrow>
        (z1, z2) \<in> set (filter (\<lambda>(a, b). (b, a) \<notin> set neighbor_pairs) neighbor_pairs)"
    by (simp add: is_neighbor_pairs)
  then show ?thesis unfolding one_way_pairs by auto
qed

text \<open>
  C3: the adjacency data is not symmetric. \<open>Q2\<close> is listed under \<open>T1\<close> and under \<open>T3\<close>,
  but neither \<open>T1\<close> nor \<open>T3\<close> is listed under \<open>Q2\<close>. These are the only two pairs listed
  in one direction only.
\<close>

theorem NEIGHBORS_not_symmetric:
  "is_neighbor ''T1'' ''Q2'' \<and> \<not> is_neighbor ''Q2'' ''T1'' \<and>
   is_neighbor ''T3'' ''Q2'' \<and> \<not> is_neighbor ''Q2'' ''T3'' \<and>
   (\<forall>z1 z2. is_neighbor z1 z2 \<and> \<not> is_neighbor z2 z1 \<longleftrightarrow>
              (z1 = ''T1'' \<or> z1 = ''T3'') \<and> z2 = ''Q2'')"
proof -
  have "is_neighbor ''T1'' ''Q2'' \<and> \<not> is_neighbor ''Q2'' ''T1'' \<and>
        is_neighbor ''T3'' ''Q2'' \<and> \<not> is_neighbor ''Q2'' ''T3''"
    by (simp add: is_neighbor_def NEIGHBORS_def)
  with asymmetric_pairs show ?thesis by blast
qed

text \<open>
  C9: on a non-negative count, \<open>get_heat_color\<close> returns white for 0, light blue for 1 and
  2, medium blue for 3 to 5 and dark blue from 6 on, and nothing else.
\<close>

theorem get_heat_color_thresholds:
  "0 \<le> v \<Longrightarrow>
     (v = 0 \<longrightarrow> get_heat_color v = ''#ffffff'') \<and>
     (1 \<le> v \<and> v \<le> 2 \<longrightarrow> get_heat_color v = ''#a3d5ff'') \<and>
     (3 \<le> v \<and> v \<le> 5 \<longrightarrow> get_heat_color v = ''#3399ff'') \<and>
     (6 \<le> v \<longrightarrow> get_heat_color v = ''#004c99'') \<and>
     get_heat_color v \<in> {''#ffffff'', ''#a3d5ff'', ''#3399ff'', ''#004c99''}"
  by (simp add: get_heat_color_def)

theorem get_heat_color_thresholds_witness:
  "get_heat_color 0 = ''#ffffff'' \<and> get_heat_color 2 = ''#a3d5ff'' \<and>
   get_heat_color 5 = ''#3399ff'' \<and> get_heat_color 6 = ''#004c99''"
  using get_heat_color_thresholds [of 0] get_heat_color_thresholds [of 2]
    get_heat_color_thresholds [of 5] get_heat_color_thresholds [of 6]
  by simp


section \<open>The core actions, case by case\<close>

lemma validate_zone_ok: "z \<in> set ALL_ZONES \<Longrightarrow> validate_zone z = Inr ()"
  by (simp add: validate_zone_def)

lemma validate_zone_bad: "z \<notin> set ALL_ZONES \<Longrightarrow> validate_zone z = Inl (InvalidZone z)"
  by (simp add: validate_zone_def)

lemma log_pitch_invalid:
  "a \<notin> set ALL_ZONES \<Longrightarrow> log_pitch self a = (Inl (InvalidZone a), self)"
  by (simp add: log_pitch_def validate_zone_bad)

lemma log_pitch_no_target:
  "a \<in> set ALL_ZONES \<Longrightarrow> \<not> truthy (target self) \<Longrightarrow> log_pitch self a = (Inl NoTargetSet, self)"
  by (simp add: log_pitch_def validate_zone_ok)

lemma log_pitch_ok:
  "a \<in> set ALL_ZONES \<Longrightarrow> target self = Some t \<Longrightarrow> t \<noteq> [] \<Longrightarrow>
   log_pitch self a =
     (Inr \<lparr>pitch_num = (if pitch_counter self < 1 then 1 else pitch_counter self + 1),
           entry_target = t, actual = a,
           accuracy = (if t = a then 10 else if is_neighbor t a then 5 else 0)\<rparr>,
      self\<lparr>pitch_counter := (if pitch_counter self < 1 then 1 else pitch_counter self + 1),
           pitch_log := pitch_log self @
             [\<lparr>pitch_num = (if pitch_counter self < 1 then 1 else pitch_counter self + 1),
               entry_target = t, actual = a,
               accuracy = (if t = a then 10 else if is_neighbor t a then 5 else 0)\<rparr>],
           target := None\<rparr>)"
  by (simp add: log_pitch_def validate_zone_ok Let_def)

lemma set_target_ok:
  "z \<in> set ALL_ZONES \<Longrightarrow> set_target self z = (Inr (), self\<lparr>target := Some z\<rparr>)"
  by (simp add: set_target_def validate_zone_ok)

lemma set_target_invalid:
  "z \<notin> set ALL_ZONES \<Longrightarrow> set_target self z = (Inl (InvalidZone z), self)"
  by (simp add: set_target_def validate_zone_bad)

lemma truthy_cases: "\<not> truthy x \<or> (\<exists>t. x = Some t \<and> t \<noteq> [])"
  by (cases x) auto

lemma log_pitch_clears_target:
  "fst (log_pitch self a) = Inr entry \<Longrightarrow> target (snd (log_pitch self a)) = None"
proof (cases "a \<in> set ALL_ZONES")
  case False
  assume "fst (log_pitch self a) = Inr entry"
  with False show ?thesis by (simp add: log_pitch_invalid)
next
  case True
  assume ok: "fst (log_pitch self a) = Inr entry"
  from truthy_cases [of "target self"] show ?thesis
  proof
    assume "\<not> truthy (target self)"
    with True ok show ?thesis by (simp add: log_pitch_no_target)
  next
    assume "\<exists>t. target self = Some t \<and> t \<noteq> []"
    then obtain t where "target self = Some t" "t \<noteq> []" by blast
    with True show ?thesis by (simp add: log_pitch_ok)
  qed
qed

lemma log_pitch_valid_not_InvalidZone:
  "z \<in> set ALL_ZONES \<Longrightarrow> fst (log_pitch self z) \<noteq> Inl (InvalidZone z')"
  using truthy_cases [of "target self"]
  by (auto simp add: log_pitch_no_target log_pitch_ok InvalidZone_neq_NoTargetSet [symmetric])


text \<open>
  C1: when \<open>a\<close> is a valid zone and a target is set (\<open>Some t\<close> with \<open>t\<close> not the empty
  string, which Python takes for no target; every zone is non-empty), \<open>log_pitch self a\<close>
  returns an entry that carries the incremented counter, the consumed target, \<open>a\<close>, and
  the accuracy 10 if \<open>a\<close> is the target, 5 if \<open>is_neighbor t a\<close>, else 0; the tracker it
  leaves has that counter, the log extended by exactly this entry, and no target.
\<close>

theorem log_pitch_success:
  assumes "a \<in> set ALL_ZONES" and "target self = Some t" and "t \<noteq> []"
  shows "\<exists>entry.
     log_pitch self a =
       (Inr entry,
        self\<lparr>pitch_counter := pitch_num entry, pitch_log := pitch_log self @ [entry],
             target := None\<rparr>) \<and>
     pitch_num entry = (if pitch_counter self < 1 then 1 else pitch_counter self + 1) \<and>
     entry_target entry = t \<and> actual entry = a \<and>
     accuracy entry = (if a = t then 10 else if is_neighbor t a then 5 else 0)"
  using assms by (auto simp add: log_pitch_ok)

theorem log_pitch_success_witness:
  "log_pitch (snd (set_target PitchTracker_init ''Q1'')) ''Q1'' =
     (Inr \<lparr>pitch_num = 1, entry_target = ''Q1'', actual = ''Q1'', accuracy = 10\<rparr>,
      \<lparr>target = None, pitch_counter = 1,
       pitch_log = [\<lparr>pitch_num = 1, entry_target = ''Q1'', actual = ''Q1'', accuracy = 10\<rparr>]\<rparr>) \<and>
   accuracy (projr (fst (log_pitch (snd (set_target PitchTracker_init ''Q1'')) ''Q2''))) = 5"
proof -
  have z1: "''Q1'' \<in> set ALL_ZONES" and z2: "''Q2'' \<in> set ALL_ZONES"
    by (simp_all add: ALL_ZONES_eq)
  have t: "target (snd (set_target PitchTracker_init ''Q1'')) = Some ''Q1''"
    by (simp add: set_target_ok z1)
  have n: "is_neighbor ''Q1'' ''Q2''"
    by (simp add: is_neighbor_def NEIGHBORS_def)
  have s: "snd (set_target PitchTracker_init ''Q1'') = \<lparr>target = Some ''Q1'', pitch_counter = 0, pitch_log = []\<rparr>"
    by (simp add: set_target_ok z1 PitchTracker_init_def)
  show ?thesis
    using log_pitch_success [OF z1 t] log_pitch_success [OF z2 t] n
    by (auto simp add: s)
qed


text \<open>
  C4: \<open>set_target\<close> and \<open>log_pitch\<close> fail with \<open>InvalidZone\<close> exactly when the zone is
  not one of the 25 labels, also when no target is set; with a valid zone, and a target
  field that is unset or holds a non-empty string, \<open>log_pitch\<close> fails with \<open>NoTargetSet\<close>
  exactly when the target is unset, which is the case in the initial tracker, after
  \<open>clear_pitch_log\<close> and after a successful \<open>log_pitch\<close>.
\<close>

theorem error_conditions:
  "(z \<notin> set ALL_ZONES \<longrightarrow>
      fst (set_target self z) = Inl (InvalidZone z) \<and>
      fst (log_pitch self z) = Inl (InvalidZone z)) \<and>
   (z \<in> set ALL_ZONES \<longrightarrow>
      fst (set_target self z) = Inr () \<and>
      (\<forall>z'. fst (log_pitch self z) \<noteq> Inl (InvalidZone z'))) \<and>
   (z \<in> set ALL_ZONES \<and> target self \<noteq> Some [] \<longrightarrow>
      (fst (log_pitch self z) = Inl NoTargetSet \<longleftrightarrow> target self = None) \<and>
      (target self \<noteq> None \<longrightarrow> (\<exists>entry. fst (log_pitch self z) = Inr entry))) \<and>
   (z \<in> set ALL_ZONES \<longrightarrow>
      fst (log_pitch PitchTracker_init z) = Inl NoTargetSet \<and>
      fst (log_pitch (snd (clear_pitch_log self)) z) = Inl NoTargetSet \<and>
      (\<forall>a entry. fst (log_pitch self a) = Inr entry \<longrightarrow>
         fst (log_pitch (snd (log_pitch self a)) z) = Inl NoTargetSet))"
proof -
  have invalid: "z \<notin> set ALL_ZONES \<longrightarrow>
      fst (set_target self z) = Inl (InvalidZone z) \<and>
      fst (log_pitch self z) = Inl (InvalidZone z)"
    by (simp add: set_target_invalid log_pitch_invalid)
  have valid: "z \<in> set ALL_ZONES \<longrightarrow>
      fst (set_target self z) = Inr () \<and>
      (\<forall>z'. fst (log_pitch self z) \<noteq> Inl (InvalidZone z'))"
    by (simp add: set_target_ok log_pitch_valid_not_InvalidZone)
  have no_target: "z \<in> set ALL_ZONES \<and> target self \<noteq> Some [] \<longrightarrow>
      (fst (log_pitch self z) = Inl NoTargetSet \<longleftrightarrow> target self = None) \<and>
      (target self \<noteq> None \<longrightarrow> (\<exists>entry. fst (log_pitch self z) = Inr entry))"
  proof (cases "target self")
    case None
    then show ?thesis by (simp add: log_pitch_no_target)
  next
    case (Some t)
    then show ?thesis by (simp add: log_pitch_ok)
  qed
  have unset: "z \<in> set ALL_ZONES \<longrightarrow>
      fst (log_pitch PitchTracker_init z) = Inl NoTargetSet \<and>
      fst (log_pitch (snd (clear_pitch_log self)) z) = Inl NoTargetSet \<and>
      (\<forall>a entry. fst (log_pitch self a) = Inr entry \<longrightarrow>
         fst (log_pitch (snd (log_pitch self a)) z) = Inl NoTargetSet)"
    by (simp add: log_pitch_no_target PitchTracker_init_def clear_pitch_log_def
        log_pitch_clears_target)
  from invalid valid no_target unset show ?thesis by (intro conjI)
qed

theorem error_conditions_witness:
  "fst (set_target PitchTracker_init ''Q0'') = Inl (InvalidZone ''Q0'') \<and>
   fst (log_pitch PitchTracker_init ''Q0'') = Inl (InvalidZone ''Q0'') \<and>
   fst (set_target PitchTracker_init ''Q1'') = Inr () \<and>
   fst (log_pitch PitchTracker_init ''Q1'') = Inl NoTargetSet \<and>
   (\<exists>entry. fst (log_pitch (snd (set_target PitchTracker_init ''Q1'')) ''Q1'') = Inr entry)"
proof -
  have x: "''Q0'' \<notin> set ALL_ZONES" and q: "''Q1'' \<in> set ALL_ZONES"
    by (simp_all add: ALL_ZONES_eq)
  have t: "target (snd (set_target PitchTracker_init ''Q1'')) = Some ''Q1''"
    by (simp add: set_target_ok q)
  show ?thesis
    using error_conditions [of "''Q0''" PitchTracker_init]
      error_conditions [of "''Q1''" PitchTracker_init]
      error_conditions [of "''Q1''" "snd (set_target PitchTracker_init ''Q1'')"]
      x q t
    by simp
qed


text \<open>
  C10: a call of \<open>set_target\<close> or \<open>log_pitch\<close> that raises leaves the tracker as it was:
  target, counter and log are unchanged.
\<close>

theorem failure_leaves_state:
  "(fst (set_target self z) = Inl e \<longrightarrow> snd (set_target self z) = self) \<and>
   (fst (log_pitch self a) = Inl e' \<longrightarrow> snd (log_pitch self a) = self)"
proof (intro conjI impI)
  assume "fst (set_target self z) = Inl e"
  then show "snd (set_target self z) = self"
    by (cases "z \<in> set ALL_ZONES") (simp_all add: set_target_ok set_target_invalid)
next
  assume f: "fst (log_pitch self a) = Inl e'"
  show "snd (log_pitch self a) = self"
  proof (cases "a \<in> set ALL_ZONES")
    case False
    then show ?thesis by (simp add: log_pitch_invalid)
  next
    case True
    from truthy_cases [of "target self"] show ?thesis
    proof
      assume "\<not> truthy (target self)"
      with True show ?thesis by (simp add: log_pitch_no_target)
    next
      assume "\<exists>t. target self = Some t \<and> t \<noteq> []"
      then obtain t where "target self = Some t" "t \<noteq> []" by blast
      with True f show ?thesis by (simp add: log_pitch_ok)
    qed
  qed
qed


theorem failure_leaves_state_witness:
  "fst (set_target (run [SetTarget ''Q1'', LogPitch ''Q2'', SetTarget ''Q5'']) ''XX'')
     = Inl (InvalidZone ''XX'') \<and>
   snd (set_target (run [SetTarget ''Q1'', LogPitch ''Q2'', SetTarget ''Q5'']) ''XX'')
     = run [SetTarget ''Q1'', LogPitch ''Q2'', SetTarget ''Q5''] \<and>
   fst (log_pitch (run [SetTarget ''Q1'', LogPitch ''Q2'']) ''Q3'') = Inl NoTargetSet \<and>
   snd (log_pitch (run [SetTarget ''Q1'', LogPitch ''Q2'']) ''Q3'')
     = run [SetTarget ''Q1'', LogPitch ''Q2'']"
proof -
  have x: "''XX'' \<notin> set ALL_ZONES" and q: "''Q3'' \<in> set ALL_ZONES"
    by (simp_all add: ALL_ZONES_eq)
  have a: "fst (set_target (run [SetTarget ''Q1'', LogPitch ''Q2'', SetTarget ''Q5'']) ''XX'')
     = Inl (InvalidZone ''XX'')"
    by (simp add: set_target_invalid [OF x])
  have t: "target (run [SetTarget ''Q1'', LogPitch ''Q2'']) = None"
    by (simp add: run_def PitchTracker_init_def set_target_def log_pitch_def validate_zone_def
        ALL_ZONES_eq Let_def)
  have b: "fst (log_pitch (run [SetTarget ''Q1'', LogPitch ''Q2'']) ''Q3'') = Inl NoTargetSet"
    by (simp add: log_pitch_no_target [OF q] t)
  from a b show ?thesis
    using failure_leaves_state [of "run [SetTarget ''Q1'', LogPitch ''Q2'', SetTarget ''Q5'']"
        "''XX''" "InvalidZone ''XX''"]
      failure_leaves_state [of "run [SetTarget ''Q1'', LogPitch ''Q2'']" _ _ "''Q3''" NoTargetSet]
    by simp
qed


section \<open>The counter and the log\<close>

lemma counter_ok_init: "counter_ok PitchTracker_init"
  by (simp add: counter_ok_def PitchTracker_init_def)

lemma counter_ok_log_pitch:
  assumes "counter_ok self"
  shows "counter_ok (snd (log_pitch self a))"
proof (cases "a \<in> set ALL_ZONES")
  case False
  with assms show ?thesis by (simp add: log_pitch_invalid)
next
  case True
  from truthy_cases [of "target self"] show ?thesis
  proof
    assume "\<not> truthy (target self)"
    with True assms show ?thesis by (simp add: log_pitch_no_target)
  next
    assume "\<exists>t. target self = Some t \<and> t \<noteq> []"
    then obtain t where t: "target self = Some t" "t \<noteq> []" by blast
    from assms have c: "pitch_counter self = int (length (pitch_log self))"
      and m: "map pitch_num (pitch_log self) = [1..int (length (pitch_log self))]"
      by (simp_all add: counter_ok_def)
    show ?thesis
      unfolding counter_ok_def log_pitch_ok [OF True t]
      by (simp add: c m upto_rec2)
  qed
qed

lemma counter_ok_apply_op: "counter_ok self \<Longrightarrow> counter_ok (apply_op self x)"
proof (cases x)
  case (SetTarget z)
  assume "counter_ok self"
  then show ?thesis
    by (cases "z \<in> set ALL_ZONES")
       (simp_all add: SetTarget set_target_ok set_target_invalid counter_ok_def)
next
  case (LogPitch a)
  assume "counter_ok self"
  then show ?thesis by (simp add: LogPitch counter_ok_log_pitch)
next
  case ClearPitchLog
  then show ?thesis by (simp add: clear_pitch_log_def counter_ok_def)
qed

lemma counter_ok_foldl: "counter_ok self \<Longrightarrow> counter_ok (foldl apply_op self ops)"
  by (induction ops arbitrary: self) (simp_all add: counter_ok_apply_op)


text \<open>
  C2: after any sequence of \<open>set_target\<close>, \<open>log_pitch\<close> and \<open>clear_pitch_log\<close> calls
  from the initial tracker, each of which succeeds or raises, the counter equals the
  length of the log and the entries' numbers are 1, ..., N in log order.
\<close>

theorem counter_matches_log:
  "pitch_counter (run ops) = int (length (pitch_log (run ops))) \<and>
   map pitch_num (pitch_log (run ops)) = [1..int (length (pitch_log (run ops)))]"
  using counter_ok_foldl [OF counter_ok_init, of ops]
  by (simp add: run_def counter_ok_def)

section \<open>The float model\<close>

text \<open>
  \<open>fl\<close> rounds correctly: its result is an integer of at most 53 bits times a power of
  two, and it differs from its argument by at most \<open>2^-53\<close> of the argument.
\<close>

lemma pow2_powi: "pow2 e = 2 powi e"
  by (simp add: pow2_def power_int_def power_inverse [symmetric] inverse_eq_divide power_one_over)

lemma pow2_pos: "0 < pow2 e"
  by (simp add: pow2_def)

lemma pow2_add: "pow2 (a + b) = pow2 a * pow2 b"
  by (simp add: pow2_powi power_int_add)

lemma pow2_diff: "pow2 (a - b) = pow2 a / pow2 b"
  by (simp add: pow2_powi power_int_diff)

lemma pow2_nat: "0 \<le> e \<Longrightarrow> pow2 e = 2 ^ nat e"
  by (simp add: pow2_def)

lemma bitlen_nonneg: "0 \<le> bitlen n"
proof (induction n rule: bitlen.induct)
  case (1 n)
  then show ?case by (subst bitlen.simps) simp
qed

lemma bitlen_pos: "0 < n \<Longrightarrow> 0 < bitlen n"
  using bitlen_nonneg [of "n div 2"] by (subst bitlen.simps) simp

lemma bitlen_bounds:
  "0 < n \<Longrightarrow> 2 ^ nat (bitlen n - 1) \<le> n \<and> n < 2 ^ nat (bitlen n)"
proof (induction n rule: bitlen.induct)
  case (1 n)
  show ?case
  proof (cases "n = 1")
    case True
    then show ?thesis by (simp add: bitlen.simps [of 1] bitlen.simps [of 0])
  next
    case False
    with "1.prems" have h: "0 < n div 2" by simp
    with "1.IH" "1.prems" have ih: "2 ^ nat (bitlen (n div 2) - 1) \<le> n div 2"
      "n div 2 < 2 ^ nat (bitlen (n div 2))" by simp_all
    have b: "bitlen n = 1 + bitlen (n div 2)"
      using "1.prems" by (subst bitlen.simps) simp
    have p: "0 < bitlen (n div 2)" using h by (rule bitlen_pos)
    then have e: "nat (bitlen (n div 2)) = Suc (nat (bitlen (n div 2) - 1))" by simp
    have lo: "2 ^ nat (bitlen n - 1) \<le> n"
    proof -
      have "(2::int) ^ nat (bitlen n - 1) = 2 * 2 ^ nat (bitlen (n div 2) - 1)"
        unfolding b using e by simp
      also have "\<dots> \<le> 2 * (n div 2)" using ih(1) by simp
      also have "\<dots> \<le> n" by simp
      finally show ?thesis .
    qed
    have hi: "n < 2 ^ nat (bitlen n)"
    proof -
      have "n < 2 * (n div 2 + 1)" by simp
      also have "\<dots> \<le> 2 * 2 ^ nat (bitlen (n div 2))" using ih(2) by simp
      also have "\<dots> = 2 ^ nat (bitlen n)"
        unfolding b using p by (simp add: nat_add_distrib)
      finally show ?thesis .
    qed
    from lo hi show ?thesis ..
  qed
qed

lemma binexp_lower:
  assumes "q \<noteq> 0"
  shows "pow2 (binexp q) \<le> \<bar>q\<bar>"
proof -
  obtain n d where nd: "quotient_of \<bar>q\<bar> = (n, d)" by (cases "quotient_of \<bar>q\<bar>")
  then have d: "0 < d" and q: "\<bar>q\<bar> = of_int n / of_int d"
    by (simp_all add: quotient_of_denom_pos quotient_of_div)
  from assms have "0 < \<bar>q\<bar>" by simp
  with q d have n: "0 < n" by (simp add: zero_less_divide_iff)
  define g where "g = bitlen n - bitlen d"
  have be: "binexp q = (if pow2 g \<le> \<bar>q\<bar> then g else g - 1)"
    by (simp add: binexp_def nd g_def)
  show ?thesis
  proof (cases "pow2 g \<le> \<bar>q\<bar>")
    case True
    then show ?thesis by (simp add: be)
  next
    case False
    have lo: "pow2 (bitlen n - 1) \<le> of_int n"
    proof -
      have "(2::int) ^ nat (bitlen n - 1) \<le> n" using bitlen_bounds [OF n] by simp
      then have "rat_of_int (2 ^ nat (bitlen n - 1)) \<le> of_int n" by (simp only: of_int_le_iff)
      moreover have "0 \<le> bitlen n - 1" using bitlen_pos [OF n] by simp
      ultimately show ?thesis by (simp add: pow2_nat)
    qed
    have hi: "of_int d \<le> pow2 (bitlen d)"
    proof -
      have "d < 2 ^ nat (bitlen d)" using bitlen_bounds [OF d] by simp
      then have "rat_of_int d \<le> of_int (2 ^ nat (bitlen d))" by (simp only: of_int_le_iff)
      moreover have "0 \<le> bitlen d" by (rule bitlen_nonneg)
      ultimately show ?thesis by (simp add: pow2_nat)
    qed
    have "pow2 (g - 1) = pow2 (bitlen n - 1) / pow2 (bitlen d)"
      by (simp add: g_def pow2_diff [symmetric] algebra_simps)
    also have "\<dots> \<le> of_int n / pow2 (bitlen d)"
      using lo pow2_pos [of "bitlen d"] by (simp add: divide_right_mono)
    also have "\<dots> \<le> of_int n / of_int d"
      using hi n d by (simp add: frac_le)
    finally show ?thesis using False by (simp add: be q)
  qed
qed

lemma round_half_even_error: "\<bar>of_int (round_half_even x) - x\<bar> \<le> 1 / 2"
proof -
  have "of_int \<lfloor>x\<rfloor> \<le> x" "x < of_int \<lfloor>x\<rfloor> + 1" by linarith+
  then show ?thesis
    by (auto simp add: round_half_even_def Let_def abs_le_iff not_less)
qed

lemma fl_error: "\<bar>fl q - q\<bar> \<le> \<bar>q\<bar> / 2 ^ 53"
proof (cases "q = 0")
  case True
  then show ?thesis by (simp add: fl_def)
next
  case False
  define u where "u = pow2 (binexp q - 52)"
  have u: "0 < u" by (simp add: u_def pow2_pos)
  have f: "fl q = of_int (round_half_even (q / u)) * u"
    using False by (simp add: fl_def u_def Let_def)
  have "fl q - q = (of_int (round_half_even (q / u)) - q / u) * u"
    using u by (simp add: f algebra_simps)
  then have "\<bar>fl q - q\<bar> = \<bar>of_int (round_half_even (q / u)) - q / u\<bar> * u"
    using u by (simp add: abs_mult)
  also have "\<dots> \<le> 1 / 2 * u"
    using round_half_even_error [of "q / u"] u by (simp add: mult_right_mono)
  also have "\<dots> = pow2 (binexp q) / 2 ^ 53"
    by (simp add: u_def pow2_diff pow2_nat)
  also have "\<dots> \<le> \<bar>q\<bar> / 2 ^ 53"
    using binexp_lower [OF False] by (simp add: divide_right_mono)
  finally show ?thesis .
qed

lemma binexp_upper:
  assumes "q \<noteq> 0"
  shows "\<bar>q\<bar> < pow2 (binexp q + 1)"
proof -
  obtain n d where nd: "quotient_of \<bar>q\<bar> = (n, d)" by (cases "quotient_of \<bar>q\<bar>")
  then have d: "0 < d" and q: "\<bar>q\<bar> = of_int n / of_int d"
    by (simp_all add: quotient_of_denom_pos quotient_of_div)
  from assms have "0 < \<bar>q\<bar>" by simp
  with q d have n: "0 < n" by (simp add: zero_less_divide_iff)
  define g where "g = bitlen n - bitlen d"
  have be: "binexp q = (if pow2 g \<le> \<bar>q\<bar> then g else g - 1)"
    by (simp add: binexp_def nd g_def)
  show ?thesis
  proof (cases "pow2 g \<le> \<bar>q\<bar>")
    case False
    then show ?thesis by (simp add: be)
  next
    case True
    have hi: "of_int n < pow2 (bitlen n)"
    proof -
      have "n < 2 ^ nat (bitlen n)" using bitlen_bounds [OF n] by simp
      then have "rat_of_int n < of_int (2 ^ nat (bitlen n))" by (simp only: of_int_less_iff)
      moreover have "0 \<le> bitlen n" by (rule bitlen_nonneg)
      ultimately show ?thesis by (simp add: pow2_nat)
    qed
    have lo: "pow2 (bitlen d - 1) \<le> of_int d"
    proof -
      have "(2::int) ^ nat (bitlen d - 1) \<le> d" using bitlen_bounds [OF d] by simp
      then have "rat_of_int (2 ^ nat (bitlen d - 1)) \<le> of_int d" by (simp only: of_int_le_iff)
      moreover have "0 \<le> bitlen d - 1" using bitlen_pos [OF d] by simp
      ultimately show ?thesis by (simp add: pow2_nat)
    qed
    have "of_int n / of_int d < pow2 (bitlen n) / of_int d"
      using hi d by (simp add: divide_strict_right_mono)
    also have "\<dots> \<le> pow2 (bitlen n) / pow2 (bitlen d - 1)"
      using lo pow2_pos [of "bitlen d - 1"] pow2_pos [of "bitlen n"]
      by (simp add: frac_le)
    also have "\<dots> = pow2 (g + 1)"
      by (simp add: g_def pow2_diff [symmetric] algebra_simps)
    finally show ?thesis using True by (simp add: be q)
  qed
qed

lemma fl_significand:
  assumes "q \<noteq> 0"
  shows "\<exists>m. fl q = of_int m * pow2 (binexp q - 52) \<and> \<bar>m\<bar> \<le> 2 ^ 53"
proof -
  define u where "u = pow2 (binexp q - 52)"
  define m where "m = round_half_even (q / u)"
  have u: "0 < u" by (simp add: u_def pow2_pos)
  have f: "fl q = of_int m * u"
    using assms by (simp add: fl_def u_def m_def Let_def)
  have "pow2 (binexp q + 1) = 2 ^ 53 * u"
    by (simp add: u_def pow2_diff pow2_add pow2_nat)
  with binexp_upper [OF assms] have "\<bar>q\<bar> < 2 ^ 53 * u" by simp
  with u have "\<bar>q / u\<bar> < 2 ^ 53" by (simp add: pos_divide_less_eq)
  moreover have "\<bar>rat_of_int m - q / u\<bar> \<le> 1 / 2"
    unfolding m_def by (rule round_half_even_error)
  ultimately have "\<bar>rat_of_int m\<bar> < 2 ^ 53 + 1" by linarith
  then have "\<bar>rat_of_int m\<bar> < rat_of_int (2 ^ 53 + 1)" by simp
  then have "\<bar>m\<bar> < 2 ^ 53 + 1"
    by (simp only: of_int_abs [symmetric] of_int_less_iff)
  then have "\<bar>m\<bar> \<le> 2 ^ 53" by simp
  with f show ?thesis unfolding u_def by blast
qed

lemma pct_error:
  assumes "0 \<le> s" and "s \<le> t" and "0 < t"
  shows "\<bar>py_mul (py_truediv s t) 100 - rat_of_int s / rat_of_int t * 100\<bar> \<le> 300 / 2 ^ 53"
proof -
  define r :: rat where "r = of_int s / of_int t"
  define y where "y = fl r"
  define x where "x = fl (y * 100)"
  have r0: "0 \<le> r" and r1: "r \<le> 1"
    using assms by (simp_all add: r_def)
  have "\<bar>y - r\<bar> \<le> \<bar>r\<bar> / 2 ^ 53" unfolding y_def by (rule fl_error)
  also have "\<dots> \<le> 1 / 2 ^ 53" using r0 r1 by (simp add: divide_right_mono)
  finally have yr: "\<bar>y - r\<bar> \<le> 1 / 2 ^ 53" .
  have small: "(1::rat) / 2 ^ 53 \<le> 1" by simp
  from yr r0 r1 small have y2: "\<bar>y\<bar> \<le> 2" by linarith
  have "\<bar>x - y * 100\<bar> \<le> \<bar>y * 100\<bar> / 2 ^ 53" unfolding x_def by (rule fl_error)
  also have "\<dots> \<le> 200 / 2 ^ 53" using y2 by (simp add: abs_mult divide_right_mono)
  finally have xy: "\<bar>x - y * 100\<bar> \<le> 200 / 2 ^ 53" .
  have "x - r * 100 = (x - y * 100) + 100 * (y - r)" by simp
  then have "\<bar>x - r * 100\<bar> \<le> \<bar>x - y * 100\<bar> + \<bar>100 * (y - r)\<bar>"
    by (simp only: abs_triangle_ineq)
  moreover have "\<bar>100 * (y - r)\<bar> = 100 * \<bar>y - r\<bar>"
    by (simp only: abs_mult abs_numeral)
  ultimately have "\<bar>x - r * 100\<bar> \<le> \<bar>x - y * 100\<bar> + 100 * \<bar>y - r\<bar>"
    by (simp only:)
  also have "\<dots> \<le> 200 / 2 ^ 53 + 100 * (1 / 2 ^ 53)"
    using xy yr by (intro add_mono mult_left_mono) simp_all
  also have "\<dots> = 300 / 2 ^ 53" by simp
  finally show ?thesis by (simp add: x_def y_def r_def py_mul_def py_truediv_def)
qed

lemma round1_near: "\<bar>rat_of_int (round_half_even (x * 10)) / 10 - x\<bar> \<le> 1 / 20"
  using round_half_even_error [of "x * 10"] by linarith

lemma accuracy_pct_near:
  assumes "0 \<le> s" and "s \<le> t" and "0 < t"
  shows "\<bar>rat_of_int (round_half_even (py_mul (py_truediv s t) 100 * 10)) / 10
          - rat_of_int s / rat_of_int t * 100\<bar> \<le> 1 / 20 + 1 / 2 ^ 44"
proof -
  define x where "x = py_mul (py_truediv s t) 100"
  have "\<bar>rat_of_int (round_half_even (x * 10)) / 10 - rat_of_int s / rat_of_int t * 100\<bar>
        \<le> \<bar>rat_of_int (round_half_even (x * 10)) / 10 - x\<bar>
          + \<bar>x - rat_of_int s / rat_of_int t * 100\<bar>"
    by linarith
  also have "\<dots> \<le> 1 / 20 + 300 / 2 ^ 53"
    using round1_near [of x] pct_error [OF assms] by (simp add: x_def)
  also have "\<dots> \<le> 1 / 20 + 1 / 2 ^ 44" by simp
  finally show ?thesis by (simp add: x_def)
qed

section \<open>The summary\<close>

lemma collect_map_Inr: "collect (map Inr xs) = Inr xs"
  by (induction xs) simp_all

lemma count_actual_keys: "map fst (count_actual c p) = map fst c"
proof (cases "map_of c (actual p)")
  case None
  then show ?thesis by (simp add: count_actual_def)
next
  case (Some v)
  then have "actual p \<in> fst ` set c"
    using map_of_eq_None_iff [of c "actual p"] by simp
  with Some show ?thesis by (simp add: count_actual_def update_keys)
qed

lemma counts_keys: "map fst (foldl count_actual c ps) = map fst c"
  by (induction ps arbitrary: c) (simp_all add: count_actual_keys)

lemma getitem_key: "z \<in> fst ` set c \<Longrightarrow> getitem c z = Inr (the (map_of c z))"
proof -
  assume "z \<in> fst ` set c"
  then have "map_of c z \<noteq> None" by (simp add: map_of_eq_None_iff)
  then show ?thesis by (auto simp add: getitem_def)
qed

lemma collect_getitem_row:
  assumes "set row \<subseteq> fst ` set c"
  shows "collect [getitem c z. z \<leftarrow> row] = Inr [the (map_of c z). z \<leftarrow> row]"
proof -
  from assms have "\<And>z. z \<in> set row \<Longrightarrow> getitem c z = Inr (the (map_of c z))"
    by (blast intro: getitem_key)
  then have "[getitem c z. z \<leftarrow> row] = map Inr [the (map_of c z). z \<leftarrow> row]"
    by simp
  then show ?thesis by (simp only: collect_map_Inr)
qed

lemma collect_fmt_row:
  assumes "set row \<subseteq> fst ` set c"
  shows "collect [map_sum id (f z) (getitem c z). z \<leftarrow> row] =
         Inr [f z (the (map_of c z)). z \<leftarrow> row]"
proof -
  from assms have "\<And>z. z \<in> set row \<Longrightarrow> getitem c z = Inr (the (map_of c z))"
    by (blast intro: getitem_key)
  then have "[map_sum id (f z) (getitem c z). z \<leftarrow> row] =
             map Inr [f z (the (map_of c z)). z \<leftarrow> row]"
    by simp
  then show ?thesis by (simp only: collect_map_Inr)
qed

lemma rows_in_ALL_ZONES: "row \<in> set ZONES_ORDER \<Longrightarrow> set row \<subseteq> set ALL_ZONES"
  by (auto simp add: ALL_ZONES_def)

lemma collect_counts_grid:
  assumes "map fst c = ALL_ZONES"
  shows "collect [collect [getitem c z. z \<leftarrow> row]. row \<leftarrow> ZONES_ORDER] =
         Inr [[the (map_of c z). z \<leftarrow> row]. row \<leftarrow> ZONES_ORDER]"
proof -
  from assms have k: "fst ` set c = set ALL_ZONES"
    by (metis set_map)
  have "\<And>row. row \<in> set ZONES_ORDER \<Longrightarrow>
          collect [getitem c z. z \<leftarrow> row] = Inr [the (map_of c z). z \<leftarrow> row]"
    using rows_in_ALL_ZONES k by (simp add: collect_getitem_row)
  then have "[collect [getitem c z. z \<leftarrow> row]. row \<leftarrow> ZONES_ORDER] =
        map Inr [[the (map_of c z). z \<leftarrow> row]. row \<leftarrow> ZONES_ORDER]"
    by simp
  then show ?thesis by (simp only: collect_map_Inr)
qed

lemma collect_labels_grid:
  assumes "map fst c = ALL_ZONES"
  shows "collect [collect [map_sum id (f z) (getitem c z). z \<leftarrow> row]. row \<leftarrow> ZONES_ORDER] =
         Inr [[f z (the (map_of c z)). z \<leftarrow> row]. row \<leftarrow> ZONES_ORDER]"
proof -
  from assms have k: "fst ` set c = set ALL_ZONES"
    by (metis set_map)
  have "\<And>row. row \<in> set ZONES_ORDER \<Longrightarrow>
          collect [map_sum id (f z) (getitem c z). z \<leftarrow> row] =
          Inr [f z (the (map_of c z)). z \<leftarrow> row]"
    using rows_in_ALL_ZONES k by (simp add: collect_fmt_row)
  then have "[collect [map_sum id (f z) (getitem c z). z \<leftarrow> row]. row \<leftarrow> ZONES_ORDER] =
        map Inr [[f z (the (map_of c z)). z \<leftarrow> row]. row \<leftarrow> ZONES_ORDER]"
    by simp
  then show ?thesis by (simp only: collect_map_Inr)
qed

lemma counts_of_log_keys:
  "map fst (foldl count_actual [(z, 0). z \<leftarrow> ALL_ZONES] ps) = ALL_ZONES"
  by (simp add: counts_keys comp_def)

lemma sum_ones_filter: "sum_list [1. p \<leftarrow> ps, P p] = int (length (filter P ps))"
  by (induction ps) simp_all

lemma generate_summary_eq:
  "generate_summary self =
    (Inr \<lparr>summary =
            \<lparr>total_pitches = int (length (pitch_log self)),
             accurate_10 = int (length (filter (\<lambda>p. accuracy p = 10) (pitch_log self))),
             close_5 = int (length (filter (\<lambda>p. accuracy p = 5) (pitch_log self))),
             miss_0 = int (length (pitch_log self))
                      - int (length (filter (\<lambda>p. accuracy p = 10) (pitch_log self)))
                      - int (length (filter (\<lambda>p. accuracy p = 5) (pitch_log self))),
             accuracy_pct =
               py_round1
                 (if int (length (pitch_log self)) \<noteq> 0
                  then py_mul (py_truediv
                         (int (length (filter (\<lambda>p. accuracy p = 10) (pitch_log self)))
                          + int (length (filter (\<lambda>p. accuracy p = 5) (pitch_log self))))
                         (int (length (pitch_log self)))) 100
                  else 0)\<rparr>,
          donut =
            [\<lparr>label = ''Miss'',
              count = int (length (pitch_log self))
                      - int (length (filter (\<lambda>p. accuracy p = 10) (pitch_log self)))
                      - int (length (filter (\<lambda>p. accuracy p = 5) (pitch_log self)))\<rparr>,
             \<lparr>label = ''Close'',
              count = int (length (filter (\<lambda>p. accuracy p = 5) (pitch_log self)))\<rparr>,
             \<lparr>label = ''Accurate'',
              count = int (length (filter (\<lambda>p. accuracy p = 10) (pitch_log self)))\<rparr>],
          heatmap =
            \<lparr>zones_order = ZONES_ORDER,
             labels_grid =
               [[fmt (int (length (pitch_log self))) z
                   (the (map_of (foldl count_actual [(z, 0). z \<leftarrow> ALL_ZONES] (pitch_log self)) z)).
                 z \<leftarrow> row]. row \<leftarrow> ZONES_ORDER],
             counts_grid =
               [[the (map_of (foldl count_actual [(z, 0). z \<leftarrow> ALL_ZONES] (pitch_log self)) z).
                 z \<leftarrow> row]. row \<leftarrow> ZONES_ORDER],
             counts_by_zone = foldl count_actual [(z, 0). z \<leftarrow> ALL_ZONES] (pitch_log self)\<rparr>,
          log_rows = pitch_log self\<rparr>,
     self)"
proof -
  have rows: "[\<lparr>pitch_num = pitch_num p, entry_target = entry_target p,
                 actual = actual p, accuracy = accuracy p\<rparr>. p \<leftarrow> pitch_log self]
              = pitch_log self"
    by (simp add: map_idI)
  show ?thesis
    unfolding generate_summary_def Let_def rows sum_ones_filter
      collect_labels_grid [OF counts_of_log_keys] collect_counts_grid [OF counts_of_log_keys]
    by (simp only: sum.case)
qed

lemma generate_summary_state: "snd (generate_summary self) = self"
  by (simp add: generate_summary_eq)

lemma generate_summary_returns: "\<exists>snap. fst (generate_summary self) = Inr snap"
  by (simp add: generate_summary_eq)

lemma summaries_eq: "summaries n self = (replicate n (fst (generate_summary self)), self)"
proof (induction n)
  case 0
  show ?case by simp
next
  case (Suc n)
  then show ?case by (simp add: case_prod_beta generate_summary_state)
qed

text \<open>
  C7: \<open>generate_summary\<close> leaves the tracker (target, counter and log) as it was and
  returns a snapshot; called any number of times in a row on a tracker, it returns the
  same snapshot every time.
\<close>

theorem generate_summary_pure:
  "snd (generate_summary self) = self \<and>
   (\<exists>snap. fst (generate_summary self) = Inr snap) \<and>
   summaries n self = (replicate n (fst (generate_summary self)), self)"
  using generate_summary_state generate_summary_returns summaries_eq by blast

lemma py_round1_zero: "py_round1 0 = 0"
  by (simp add: py_round1_def fl_def round_half_even_def)

lemma zero_counts_grid:
  "[[the (map_of [(z, 0::int). z \<leftarrow> ALL_ZONES] z). z \<leftarrow> row]. row \<leftarrow> ZONES_ORDER]
     = replicate 5 (replicate 5 0)"
  by (simp add: ALL_ZONES_eq ZONES_ORDER_def numeral_eq_Suc)

text \<open>
  C6: \<open>clear_pitch_log\<close> never fails and leaves, from every tracker, an empty log, the
  counter 0 and no target; the summary generated right after it has \<open>total_pitches\<close> 0,
  \<open>accuracy_pct\<close> 0.0, and the count 0 for each of the 25 zones, in the dict by zone and in
  the 5 by 5 grid.
\<close>

theorem clear_pitch_log_resets:
  "fst (clear_pitch_log self) = Inr () \<and>
   pitch_log (snd (clear_pitch_log self)) = [] \<and>
   pitch_counter (snd (clear_pitch_log self)) = 0 \<and>
   target (snd (clear_pitch_log self)) = None \<and>
   (\<exists>snap. fst (generate_summary (snd (clear_pitch_log self))) = Inr snap \<and>
      total_pitches (summary snap) = 0 \<and>
      accuracy_pct (summary snap) = 0 \<and>
      counts_by_zone (heatmap snap) = [(z, 0). z \<leftarrow> ALL_ZONES] \<and>
      length (counts_by_zone (heatmap snap)) = 25 \<and>
      counts_grid (heatmap snap) = replicate 5 (replicate 5 0))"
proof -
  define snap where "snap = projr (fst (generate_summary (snd (clear_pitch_log self))))"
  have s: "pitch_log (snd (clear_pitch_log self)) = []"
    by (simp add: clear_pitch_log_def)
  have r: "fst (clear_pitch_log self) = Inr ()"
    and c: "pitch_counter (snd (clear_pitch_log self)) = 0"
    and t: "target (snd (clear_pitch_log self)) = None"
    by (simp_all add: clear_pitch_log_def)
  have ok: "fst (generate_summary (snd (clear_pitch_log self))) = Inr snap"
    using generate_summary_returns [of "snd (clear_pitch_log self)"] by (auto simp add: snap_def)
  have tot: "total_pitches (summary snap) = 0"
    by (simp add: snap_def generate_summary_eq s)
  have pct: "accuracy_pct (summary snap) = 0"
    by (simp add: snap_def generate_summary_eq s py_round1_zero)
  have cz: "counts_by_zone (heatmap snap) = [(z, 0). z \<leftarrow> ALL_ZONES]"
    by (simp add: snap_def generate_summary_eq s)
  have len: "length (counts_by_zone (heatmap snap)) = 25"
    unfolding cz by (simp add: ALL_ZONES_eq)
  have grid: "counts_grid (heatmap snap) = replicate 5 (replicate 5 0)"
    by (simp add: snap_def generate_summary_eq s zero_counts_grid)
  from ok tot pct cz len grid
  have "\<exists>snap. fst (generate_summary (snd (clear_pitch_log self))) = Inr snap \<and>
      total_pitches (summary snap) = 0 \<and>
      accuracy_pct (summary snap) = 0 \<and>
      counts_by_zone (heatmap snap) = [(z, 0). z \<leftarrow> ALL_ZONES] \<and>
      length (counts_by_zone (heatmap snap)) = 25 \<and>
      counts_grid (heatmap snap) = replicate 5 (replicate 5 0)"
    by blast
  with r s c t show ?thesis by blast
qed

section \<open>A sample heatmap\<close>

text \<open>
  Two pitches in \<open>Q1\<close> and one in \<open>Q2\<close>: the counts by zone, and the second row of the
  label grid with its percentages.
\<close>

lemma log_two_Q1_one_Q2:
  "pitch_log two_Q1_one_Q2 =
     [\<lparr>pitch_num = 1, entry_target = ''Q1'', actual = ''Q1'', accuracy = 10\<rparr>,
      \<lparr>pitch_num = 2, entry_target = ''Q5'', actual = ''Q1'', accuracy = 0\<rparr>,
      \<lparr>pitch_num = 3, entry_target = ''Q2'', actual = ''Q2'', accuracy = 10\<rparr>]"
  by code_simp

lemma counts_two_Q1_one_Q2:
  "foldl count_actual [(z, 0). z \<leftarrow> ALL_ZONES] (pitch_log two_Q1_one_Q2) =
     [(''TL'', 0), (''T1'', 0), (''T2'', 0), (''T3'', 0), (''TR'', 0),
      (''L1'', 0), (''Q1'', 2), (''Q2'', 1), (''Q3'', 0), (''R1'', 0),
      (''L2'', 0), (''Q4'', 0), (''Q5'', 0), (''Q6'', 0), (''R2'', 0),
      (''L3'', 0), (''Q7'', 0), (''Q8'', 0), (''Q9'', 0), (''R3'', 0),
      (''BL'', 0), (''B1'', 0), (''B2'', 0), (''B3'', 0), (''BR'', 0)]"
  by code_simp

lemma fmt_2_of_3: "fmt 3 z 2 = z @ '' (2, 66.7%)''"
proof -
  have a: "py_truediv 2 3 = 6004799503160661 / 9007199254740992" by code_simp
  have b: "py_mul (6004799503160661 / 9007199254740992) 100 = 2345624805922133 / 35184372088832"
    by code_simp
  have c: "format_1f (2345624805922133 / 35184372088832) = ''66.7''" by code_simp
  have d: "str_int 2 = ''2''" by code_simp
  show ?thesis unfolding fmt_def a b c d by simp
qed

lemma fmt_1_of_3: "fmt 3 z 1 = z @ '' (1, 33.3%)''"
proof -
  have a: "py_truediv 1 3 = 6004799503160661 / 18014398509481984" by code_simp
  have b: "py_mul (6004799503160661 / 18014398509481984) 100 = 2345624805922133 / 70368744177664"
    by code_simp
  have c: "format_1f (2345624805922133 / 70368744177664) = ''33.3''" by code_simp
  have d: "str_int 1 = ''1''" by code_simp
  show ?thesis unfolding fmt_def a b c d by simp
qed

lemma fmt_0_of_3: "fmt 3 z 0 = z @ '' (0, 0.0%)''"
proof -
  have a: "py_truediv 0 3 = 0" by code_simp
  have b: "py_mul 0 100 = 0" by code_simp
  have c: "format_1f 0 = ''0.0''" by code_simp
  have d: "str_int 0 = ''0''" by code_simp
  show ?thesis unfolding fmt_def a b c d by simp
qed

lemma heatmap_two_Q1_one_Q2:
  "counts_by_zone (heatmap (projr (fst (generate_summary two_Q1_one_Q2)))) =
     [(''TL'', 0), (''T1'', 0), (''T2'', 0), (''T3'', 0), (''TR'', 0),
      (''L1'', 0), (''Q1'', 2), (''Q2'', 1), (''Q3'', 0), (''R1'', 0),
      (''L2'', 0), (''Q4'', 0), (''Q5'', 0), (''Q6'', 0), (''R2'', 0),
      (''L3'', 0), (''Q7'', 0), (''Q8'', 0), (''Q9'', 0), (''R3'', 0),
      (''BL'', 0), (''B1'', 0), (''B2'', 0), (''B3'', 0), (''BR'', 0)]"
  "labels_grid (heatmap (projr (fst (generate_summary two_Q1_one_Q2)))) ! 1 =
     [''L1 (0, 0.0%)'', ''Q1 (2, 66.7%)'', ''Q2 (1, 33.3%)'', ''Q3 (0, 0.0%)'', ''R1 (0, 0.0%)'']"
proof -
  have n: "int (length (pitch_log two_Q1_one_Q2)) = 3"
    by (simp add: log_two_Q1_one_Q2)
  show "counts_by_zone (heatmap (projr (fst (generate_summary two_Q1_one_Q2)))) =
     [(''TL'', 0), (''T1'', 0), (''T2'', 0), (''T3'', 0), (''TR'', 0),
      (''L1'', 0), (''Q1'', 2), (''Q2'', 1), (''Q3'', 0), (''R1'', 0),
      (''L2'', 0), (''Q4'', 0), (''Q5'', 0), (''Q6'', 0), (''R2'', 0),
      (''L3'', 0), (''Q7'', 0), (''Q8'', 0), (''Q9'', 0), (''R3'', 0),
      (''BL'', 0), (''B1'', 0), (''B2'', 0), (''B3'', 0), (''BR'', 0)]"
    by (simp only: generate_summary_eq counts_two_Q1_one_Q2 fst_conv sum.sel
        snapshot.simps heatmap_data.simps)
  show "labels_grid (heatmap (projr (fst (generate_summary two_Q1_one_Q2)))) ! 1 =
     [''L1 (0, 0.0%)'', ''Q1 (2, 66.7%)'', ''Q2 (1, 33.3%)'', ''Q3 (0, 0.0%)'', ''R1 (0, 0.0%)'']"
    unfolding generate_summary_eq counts_two_Q1_one_Q2 n
    by (simp add: ZONES_ORDER_def fmt_2_of_3 fmt_1_of_3 fmt_0_of_3)
qed

section \<open>The accuracy percentage\<close>

lemma acc_16: "map accuracy (pitch_log pitches_3_of_16) = replicate 3 10 @ replicate 13 0"
  by code_simp

lemma acc_80: "map accuracy (pitch_log pitches_23_of_80) = replicate 23 10 @ replicate 57 0"
  by code_simp

lemma count_by_accuracy:
  "length [p \<leftarrow> ps. accuracy p = v] = length [a \<leftarrow> map accuracy ps. a = v]"
  by (simp add: filter_map comp_def)

lemma summary_of_generate_summary:
  "summary (projr (fst (generate_summary self))) =
     \<lparr>total_pitches = int (length (pitch_log self)),
      accurate_10 = int (length [a \<leftarrow> map accuracy (pitch_log self). a = 10]),
      close_5 = int (length [a \<leftarrow> map accuracy (pitch_log self). a = 5]),
      miss_0 = int (length (pitch_log self))
               - int (length [a \<leftarrow> map accuracy (pitch_log self). a = 10])
               - int (length [a \<leftarrow> map accuracy (pitch_log self). a = 5]),
      accuracy_pct =
        py_round1
          (if int (length (pitch_log self)) \<noteq> 0
           then py_mul (py_truediv
                  (int (length [a \<leftarrow> map accuracy (pitch_log self). a = 10])
                   + int (length [a \<leftarrow> map accuracy (pitch_log self). a = 5]))
                  (int (length (pitch_log self)))) 100
           else 0)\<rparr>"
  by (simp add: generate_summary_eq count_by_accuracy)

lemma length_by_accuracy: "length (pitch_log self) = length (map accuracy (pitch_log self))"
  by simp

lemma pct_2_of_3: "py_round1 (py_mul (py_truediv 2 3) 100) = fl (667 / 10)"
proof -
  have a: "py_truediv 2 3 = 6004799503160661 / 9007199254740992" by code_simp
  have b: "py_mul (6004799503160661 / 9007199254740992) 100 = 2345624805922133 / 35184372088832"
    by code_simp
  have c: "py_round1 (2345624805922133 / 35184372088832) = fl (667 / 10)" by code_simp
  show ?thesis by (simp only: a b c)
qed

lemma pct_23_of_80: "py_round1 (py_mul (py_truediv 23 80) 100) = fl (287 / 10)"
proof -
  have a: "py_truediv 23 80 = 2589569785738035 / 9007199254740992" by code_simp
  have b: "py_mul (2589569785738035 / 9007199254740992) 100 = 8092405580431359 / 281474976710656"
    by code_simp
  have c: "py_round1 (8092405580431359 / 281474976710656) = fl (287 / 10)" by code_simp
  show ?thesis by (simp only: a b c)
qed

lemma pct_3_of_16: "py_round1 (py_mul (py_truediv 3 16) 100) = fl (188 / 10)"
proof -
  have a: "py_truediv 3 16 = 3 / 16" by code_simp
  have b: "py_mul (3 / 16) 100 = 75 / 4" by code_simp
  have c: "py_round1 (75 / 4) = fl (188 / 10)" by code_simp
  show ?thesis by (simp only: a b c)
qed

lemma fl_tenths_differ:
  "fl (287 / 10) \<noteq> fl (288 / 10)"
  "fl (188 / 10) \<noteq> fl (187 / 10)"
  by code_simp+

lemma accuracy_pct_23_of_80:
  "accuracy_pct (summary (projr (fst (generate_summary pitches_23_of_80)))) = fl (287 / 10)"
  unfolding summary_of_generate_summary length_by_accuracy acc_80
  by (simp add: pct_23_of_80)

lemma accuracy_pct_3_of_16:
  "accuracy_pct (summary (projr (fst (generate_summary pitches_3_of_16)))) = fl (188 / 10)"
  unfolding summary_of_generate_summary length_by_accuracy acc_16
  by (simp add: pct_3_of_16)

lemma claimed_23_of_80:
  "claimed_accuracy_pct round_half_even pitches_23_of_80 = fl (288 / 10)"
  "claimed_accuracy_pct round_half_up pitches_23_of_80 = fl (288 / 10)"
  by code_simp+

lemma claimed_3_of_16:
  "claimed_accuracy_pct round_half_down pitches_3_of_16 = fl (187 / 10)"
  by code_simp

text \<open>
  C5, as stated: with 23 accurate pitches of 80 the exact percentage is 28.75, which rounds
  to 28.8 by round-half-even and by round-half-up, and \<open>generate_summary\<close> returns 28.7
  (the product \<open>23 / 80 * 100.0\<close> is the float just below 28.75). Rounding ties down does
  not describe the code either: with 3 of 16 the exact percentage is 18.75, the floats are
  exact, and \<open>generate_summary\<close> returns 18.8.
\<close>

theorem accuracy_pct_not_exactly_rounded:
  "accuracy_pct (summary (projr (fst (generate_summary pitches_23_of_80)))) = fl (287 / 10) \<and>
   claimed_accuracy_pct round_half_even pitches_23_of_80 = fl (288 / 10) \<and>
   claimed_accuracy_pct round_half_up pitches_23_of_80 = fl (288 / 10) \<and>
   fl (287 / 10) \<noteq> fl (288 / 10) \<and>
   accuracy_pct (summary (projr (fst (generate_summary pitches_3_of_16)))) = fl (188 / 10) \<and>
   claimed_accuracy_pct round_half_down pitches_3_of_16 = fl (187 / 10) \<and>
   fl (188 / 10) \<noteq> fl (187 / 10)"
  using accuracy_pct_23_of_80 accuracy_pct_3_of_16 claimed_23_of_80 claimed_3_of_16
    fl_tenths_differ
  by (intro conjI)

lemma filters_disjoint:
  "length [p \<leftarrow> ps. accuracy p = 10] + length [p \<leftarrow> ps. accuracy p = 5] \<le> length ps"
  by (induction ps) auto

lemma acc_3: "map accuracy (pitch_log
     (run [SetTarget ''Q1'', LogPitch ''Q1'', SetTarget ''Q1'', LogPitch ''Q2'',
           SetTarget ''Q1'', LogPitch ''Q9''])) = [10, 5, 0]"
  by code_simp

text \<open>
  C5, amended: \<open>generate_summary\<close> returns a snapshot whose totals are the length of the
  log, the number of entries with accuracy 10, the number with accuracy 5, and
  \<open>miss = total - accurate - close\<close>. \<open>accuracy_pct\<close> is 0.0 when the total is 0. When the
  total is positive it is \<^verbatim>\<open>round(x, 1)\<close> of the float \<open>x = (accurate + close) / total * 100.0\<close>
  computed in double precision: the float nearest to \<open>k / 10\<close> for an integer \<open>k\<close>, where
  \<open>k / 10\<close> is within \<open>0.05 + 2^-44\<close> of the exact percentage. It need not be the exact
  percentage rounded by a fixed rule: when the exact percentage is a tie, the code may
  round it either way. A log with accuracies \<open>[10, 5, 0]\<close> yields total 3, accurate 1,
  close 1, miss 1 and the float 66.7.
\<close>

theorem summary_totals_float:
  "\<exists>snap k.
     fst (generate_summary self) = Inr snap \<and>
     total_pitches (summary snap) = int (length (pitch_log self)) \<and>
     accurate_10 (summary snap) = int (length [p \<leftarrow> pitch_log self. accuracy p = 10]) \<and>
     close_5 (summary snap) = int (length [p \<leftarrow> pitch_log self. accuracy p = 5]) \<and>
     miss_0 (summary snap) =
       total_pitches (summary snap) - accurate_10 (summary snap) - close_5 (summary snap) \<and>
     (total_pitches (summary snap) = 0 \<longrightarrow> accuracy_pct (summary snap) = 0) \<and>
     (0 < total_pitches (summary snap) \<longrightarrow>
        accuracy_pct (summary snap) =
          py_round1 (py_mul (py_truediv (accurate_10 (summary snap) + close_5 (summary snap))
                                        (total_pitches (summary snap))) 100) \<and>
        accuracy_pct (summary snap) = fl (of_int k / 10) \<and>
        \<bar>rat_of_int k / 10
          - rat_of_int (accurate_10 (summary snap) + close_5 (summary snap))
            / rat_of_int (total_pitches (summary snap)) * 100\<bar> \<le> 1 / 20 + 1 / 2 ^ 44) \<and>
     (map accuracy (pitch_log self) = [10, 5, 0] \<longrightarrow>
        summary snap = \<lparr>total_pitches = 3, accurate_10 = 1, close_5 = 1, miss_0 = 1,
                        accuracy_pct = fl (667 / 10)\<rparr>)"
proof -
  define tot where "tot = int (length (pitch_log self))"
  define a where "a = int (length [p \<leftarrow> pitch_log self. accuracy p = 10])"
  define c where "c = int (length [p \<leftarrow> pitch_log self. accuracy p = 5])"
  define x where "x = py_mul (py_truediv (a + c) tot) 100"
  define k where "k = round_half_even (x * 10)"
  define snap where "snap = projr (fst (generate_summary self))"
  have ok: "fst (generate_summary self) = Inr snap"
    using generate_summary_returns [of self] by (auto simp add: snap_def)
  have s: "summary snap =
      \<lparr>total_pitches = tot, accurate_10 = a, close_5 = c, miss_0 = tot - a - c,
       accuracy_pct = py_round1 (if tot \<noteq> 0 then x else 0)\<rparr>"
    by (simp add: snap_def generate_summary_eq tot_def a_def c_def x_def)
  have ac: "0 \<le> a + c" "a + c \<le> tot"
    using filters_disjoint [of "pitch_log self"] by (simp_all add: a_def c_def tot_def)
  have zero: "tot = 0 \<longrightarrow> accuracy_pct (summary snap) = 0"
    by (simp add: s py_round1_zero)
  have pos: "0 < tot \<longrightarrow>
        accuracy_pct (summary snap) = py_round1 (py_mul (py_truediv (a + c) tot) 100) \<and>
        accuracy_pct (summary snap) = fl (of_int k / 10) \<and>
        \<bar>rat_of_int k / 10 - rat_of_int (a + c) / rat_of_int tot * 100\<bar> \<le> 1 / 20 + 1 / 2 ^ 44"
  proof
    assume t: "0 < tot"
    have "\<bar>rat_of_int k / 10 - rat_of_int (a + c) / rat_of_int tot * 100\<bar> \<le> 1 / 20 + 1 / 2 ^ 44"
      unfolding k_def x_def by (rule accuracy_pct_near [OF ac t])
    moreover from t have "accuracy_pct (summary snap) = py_round1 x" by (simp add: s)
    moreover have "py_round1 x = fl (of_int k / 10)" by (simp only: py_round1_def k_def)
    ultimately show "accuracy_pct (summary snap) = py_round1 (py_mul (py_truediv (a + c) tot) 100) \<and>
        accuracy_pct (summary snap) = fl (of_int k / 10) \<and>
        \<bar>rat_of_int k / 10 - rat_of_int (a + c) / rat_of_int tot * 100\<bar> \<le> 1 / 20 + 1 / 2 ^ 44"
      by (simp only: x_def [symmetric] simp_thms)
  qed
  have scen: "map accuracy (pitch_log self) = [10, 5, 0] \<longrightarrow>
        summary snap = \<lparr>total_pitches = 3, accurate_10 = 1, close_5 = 1, miss_0 = 1,
                        accuracy_pct = fl (667 / 10)\<rparr>"
  proof
    assume m: "map accuracy (pitch_log self) = [10, 5, 0]"
    have "tot = 3" unfolding tot_def length_by_accuracy m by simp
    moreover have "a = 1" unfolding a_def count_by_accuracy m by simp
    moreover have "c = 1" unfolding c_def count_by_accuracy m by simp
    ultimately show "summary snap = \<lparr>total_pitches = 3, accurate_10 = 1, close_5 = 1, miss_0 = 1,
                        accuracy_pct = fl (667 / 10)\<rparr>"
      by (simp add: s x_def pct_2_of_3)
  qed
  have t_eq: "total_pitches (summary snap) = tot" and a_eq: "accurate_10 (summary snap) = a"
    and c_eq: "close_5 (summary snap) = c" and m_eq: "miss_0 (summary snap) = tot - a - c"
    by (simp_all add: s)
  have f1: "total_pitches (summary snap) = int (length (pitch_log self))"
    and f2: "accurate_10 (summary snap) = int (length [p \<leftarrow> pitch_log self. accuracy p = 10])"
    and f3: "close_5 (summary snap) = int (length [p \<leftarrow> pitch_log self. accuracy p = 5])"
    by (simp_all add: s tot_def a_def c_def)
  have f4: "miss_0 (summary snap) =
       total_pitches (summary snap) - accurate_10 (summary snap) - close_5 (summary snap)"
    by (simp only: t_eq a_eq c_eq m_eq)
  have zero': "total_pitches (summary snap) = 0 \<longrightarrow> accuracy_pct (summary snap) = 0"
    using zero by (simp only: t_eq)
  have pos': "0 < total_pitches (summary snap) \<longrightarrow>
        accuracy_pct (summary snap) =
          py_round1 (py_mul (py_truediv (accurate_10 (summary snap) + close_5 (summary snap))
                                        (total_pitches (summary snap))) 100) \<and>
        accuracy_pct (summary snap) = fl (of_int k / 10) \<and>
        \<bar>rat_of_int k / 10
          - rat_of_int (accurate_10 (summary snap) + close_5 (summary snap))
            / rat_of_int (total_pitches (summary snap)) * 100\<bar> \<le> 1 / 20 + 1 / 2 ^ 44"
    using pos by (simp only: t_eq a_eq c_eq)
  from ok f1 f2 f3 f4 zero' pos' scen show ?thesis by blast
qed

theorem summary_totals_float_witness:
  "accuracy_pct (summary (projr (fst (generate_summary PitchTracker_init)))) = 0 \<and>
   summary (projr (fst (generate_summary
     (run [SetTarget ''Q1'', LogPitch ''Q1'', SetTarget ''Q1'', LogPitch ''Q2'',
           SetTarget ''Q1'', LogPitch ''Q9'']))))
     = \<lparr>total_pitches = 3, accurate_10 = 1, close_5 = 1, miss_0 = 1,
        accuracy_pct = fl (667 / 10)\<rparr> \<and>
   (\<exists>k. fl (667 / 10) = fl (rat_of_int k / 10) \<and>
        \<bar>rat_of_int k / 10 - 200 / 3\<bar> \<le> 1 / 20 + 1 / 2 ^ 44)"
proof -
  have e: "pitch_log PitchTracker_init = []" by (simp add: PitchTracker_init_def)
  have a: "accuracy_pct (summary (projr (fst (generate_summary PitchTracker_init)))) = 0"
    using summary_totals_float [of PitchTracker_init] by (auto simp add: e)
  obtain snap k where
    ok: "fst (generate_summary
     (run [SetTarget ''Q1'', LogPitch ''Q1'', SetTarget ''Q1'', LogPitch ''Q2'',
           SetTarget ''Q1'', LogPitch ''Q9''])) = Inr snap"
    and s: "summary snap = \<lparr>total_pitches = 3, accurate_10 = 1, close_5 = 1, miss_0 = 1,
        accuracy_pct = fl (667 / 10)\<rparr>"
    and p: "0 < total_pitches (summary snap) \<longrightarrow>
        accuracy_pct (summary snap) = fl (of_int k / 10) \<and>
        \<bar>rat_of_int k / 10
          - rat_of_int (accurate_10 (summary snap) + close_5 (summary snap))
            / rat_of_int (total_pitches (summary snap)) * 100\<bar> \<le> 1 / 20 + 1 / 2 ^ 44"
    using summary_totals_float [of "run [SetTarget ''Q1'', LogPitch ''Q1'', SetTarget ''Q1'',
      LogPitch ''Q2'', SetTarget ''Q1'', LogPitch ''Q9'']"] acc_3
    by blast
  from p have "fl (667 / 10) = fl (rat_of_int k / 10) \<and>
        \<bar>rat_of_int k / 10 - 200 / 3\<bar> \<le> 1 / 20 + 1 / 2 ^ 44"
    by (simp add: s)
  with a ok s show ?thesis by auto
qed

end
